theory Spec2Isabelle
  imports Main "HOL-Library.Char_ord" "HOL-Library.List_Lexorder" "HOL-Library.Word"
begin

section \<open>JavaScript values used by the relay\<close>

text \<open>
  The relay is an Express application (\<^verbatim>\<open>server.js\<close> and its later revision with
  \<^verbatim>\<open>verifyShopifySignature\<close>). Text is a \<^typ>\<open>string\<close>, each \<^typ>\<open>char\<close> a code unit below
  256. The parsed query string \<^verbatim>\<open>req.query\<close> is a JavaScript object whose own enumerable
  properties are kept in insertion order: an association list from names to values. The query
  parser gives a parameter a string, an array (\<^verbatim>\<open>?a=1&a=2\<close>) or a nested object
  (\<^verbatim>\<open>?a[b]=1\<close>) as its value. A JavaScript object has each property name once: the
  theorems that need it assume \<open>distinct (map fst query)\<close>.
\<close>

datatype js_value = Str string | Arr "js_value list" | Obj "(string \<times> js_value) list"

type_synonym js_object = "(string \<times> js_value) list"

type_synonym byte = "8 word"

datatype js_error = TypeError

text \<open>\<^verbatim>\<open>obj[key]\<close>: the value of the property, \<open>None\<close> standing for \<^verbatim>\<open>undefined\<close>.\<close>

definition get_prop :: "(string \<times> 'v) list \<Rightarrow> string \<Rightarrow> 'v option" where
  "get_prop obj key = map_of obj key"

text \<open>\<^verbatim>\<open>const { k, ...rest } = obj\<close>: a new object with every own property but \<open>k\<close>.\<close>

definition rest_without :: "string \<Rightarrow> (string \<times> 'v) list \<Rightarrow> (string \<times> 'v) list" where
  "rest_without k obj = filter (\<lambda>p. fst p \<noteq> k) obj"

text \<open>\<^verbatim>\<open>Object.keys(obj)\<close>.\<close>

definition object_keys :: "(string \<times> 'v) list \<Rightarrow> string list" where
  "object_keys obj = map fst obj"

text \<open>\<^verbatim>\<open>!v\<close>: true for \<^verbatim>\<open>undefined\<close> and for the empty string; every array and every
  object, empty ones too, is truthy.\<close>

fun falsy :: "js_value option \<Rightarrow> bool" where
  "falsy None = True"
| "falsy (Some (Str s)) = (s = [])"
| "falsy (Some (Arr vs)) = False"
| "falsy (Some (Obj ps)) = False"

text \<open>The results of a list of steps, or the error of the first step that throws.\<close>

fun all_or_error :: "(js_error + 'a) list \<Rightarrow> js_error + 'a list" where
  "all_or_error [] = Inr []"
| "all_or_error (Inl e # rs) = Inl e"
| "all_or_error (Inr x # rs) =
     (case all_or_error rs of Inl e \<Rightarrow> Inl e | Inr xs \<Rightarrow> Inr (x # xs))"

text \<open>\<^verbatim>\<open>Array.prototype.join(sep)\<close> on strings.\<close>

fun join_with :: "string \<Rightarrow> string list \<Rightarrow> string" where
  "join_with sep [] = []"
| "join_with sep [x] = x"
| "join_with sep (x # y # ys) = x @ sep @ join_with sep (y # ys)"

text \<open>
  The conversion of a value to a string, as a template literal does it. A string is itself.
  An array is its elements converted and joined with commas. An object from the query parser
  is \<^verbatim>\<open>[object Object]\<close>, unless it has an own property \<^verbatim>\<open>toString\<close>
  (\<^verbatim>\<open>?a[toString]=1\<close>): that property is no function, \<^verbatim>\<open>valueOf\<close> gives no primitive
  either, and the conversion throws a \<^verbatim>\<open>TypeError\<close>.
\<close>

fun to_string :: "js_value \<Rightarrow> js_error + string" where
  "to_string (Str s) = Inr s"
| "to_string (Arr vs) =
     (case all_or_error (map to_string vs) of
        Inl e \<Rightarrow> Inl e
      | Inr ts \<Rightarrow> Inr (join_with '','' ts))"
| "to_string (Obj ps) =
     (if ''toString'' \<in> set (map fst ps) then Inl TypeError else Inr ''[object Object]'')"

text \<open>A value inside a template literal \<^verbatim>\<open>`${v}`\<close>: \<^verbatim>\<open>undefined\<close> prints as its name.\<close>

definition template_value :: "js_value option \<Rightarrow> js_error + string" where
  "template_value v = (case v of None \<Rightarrow> Inr ''undefined'' | Some x \<Rightarrow> to_string x)"

text \<open>\<^verbatim>\<open>Array.prototype.sort()\<close> with no comparator: ascending order of the strings,
  compared code unit by code unit, a proper prefix first.\<close>

definition js_sort :: "string list \<Rightarrow> string list" where
  "js_sort xs = sort xs"

text \<open>\<^verbatim>\<open>Array.prototype.join('')\<close>.\<close>

definition join_empty :: "string list \<Rightarrow> string" where
  "join_empty xs = concat xs"

text \<open>\<^verbatim>\<open>String.prototype.toLowerCase()\<close> on code units below 256: the letters \<open>A\<close> to
  \<open>Z\<close> and the capital letters U+00C0 to U+00DE (U+00D7, the multiplication sign, is none)
  move up by 32; every other code unit is kept.\<close>

definition lower_char :: "char \<Rightarrow> char" where
  "lower_char c =
     (let n = (of_char c :: nat)
      in if (65 \<le> n \<and> n \<le> 90) \<or> (192 \<le> n \<and> n \<le> 222 \<and> n \<noteq> 215)
         then char_of (n + 32) else c)"

definition toLowerCase :: "string \<Rightarrow> string" where
  "toLowerCase s = map lower_char s"

text \<open>\<^verbatim>\<open>s.replace(pat, rep)\<close> with a string pattern: only the first occurrence of \<open>pat\<close>,
  wherever it is, is replaced.\<close>

fun replace_first :: "string \<Rightarrow> string \<Rightarrow> string \<Rightarrow> string" where
  "replace_first pat rep [] = (if pat = [] then rep else [])"
| "replace_first pat rep (c # cs) =
     (if take (length pat) (c # cs) = pat then rep @ drop (length pat) (c # cs)
      else c # replace_first pat rep cs)"

text \<open>\<^verbatim>\<open>s.endsWith(suf)\<close>.\<close>

definition endsWith :: "string \<Rightarrow> string \<Rightarrow> bool" where
  "endsWith s suf = (length suf \<le> length s \<and> drop (length s - length suf) s = suf)"

section \<open>The digest\<close>

text \<open>
  \<^verbatim>\<open>crypto.createHmac('sha256', key).update(message)\<close> is Node's library: the keyed hash is
  a parameter \<open>hmac\<close> of the model, from the key and the message to the bytes of the code.
  \<^verbatim>\<open>.digest('hex')\<close> writes each byte as two lowercase hexadecimal digits.
\<close>

type_synonym hmac_fun = "string \<Rightarrow> string \<Rightarrow> byte list"

definition hex_digit :: "nat \<Rightarrow> char" where
  "hex_digit n = ''0123456789abcdef'' ! (n mod 16)"

definition hex_byte :: "byte \<Rightarrow> string" where
  "hex_byte b = [hex_digit (unat b div 16), hex_digit (unat b mod 16)]"

definition digest_hex :: "byte list \<Rightarrow> string" where
  "digest_hex bs = concat (map hex_byte bs)"

section \<open>The signature verifier\<close>

text \<open>
  The message of \<^verbatim>\<open>verifyProxySignature\<close> and \<^verbatim>\<open>verifyShopifySignature\<close>:
  \<^verbatim>\<open>Object.keys(params).sort().map(key => `${key}=${params[key]}`).join('')\<close>. The
  template literal converts the value to a string, so the message is a string or the
  \<^verbatim>\<open>TypeError\<close> of a value that has no string form.
\<close>

definition sorted_param_string :: "js_object \<Rightarrow> js_error + string" where
  "sorted_param_string params =
     (case all_or_error
             (map (\<lambda>key. case template_value (get_prop params key) of
                            Inl e \<Rightarrow> Inl e
                          | Inr t \<Rightarrow> Inr (key @ ''='' @ t))
                  (js_sort (object_keys params))) of
        Inl e \<Rightarrow> Inl e
      | Inr pairs \<Rightarrow> Inr (join_empty pairs))"

text \<open>
  \<^verbatim>\<open>verifyProxySignature(query)\<close> of \<^verbatim>\<open>server.js\<close>: the boolean it returns, or the
  error it throws. The module constant \<^verbatim>\<open>SHOPIFY_APP_SECRET\<close> is the argument \<open>secret\<close>
  (\<open>None\<close> when the environment variable is unset); \<^verbatim>\<open>!SHOPIFY_APP_SECRET\<close> holds when it
  is \<^verbatim>\<open>undefined\<close> or the empty string. \<^verbatim>\<open>calculated === signature\<close> holds when
  \<^verbatim>\<open>signature\<close> is that very string. The function only logs besides; the log is not part
  of the model.
\<close>

definition verifyProxySignature ::
  "hmac_fun \<Rightarrow> string option \<Rightarrow> js_object \<Rightarrow> js_error + bool" where
  "verifyProxySignature hmac secret query =
     (let signature = get_prop query ''signature'';
          params = rest_without ''signature'' query
      in if falsy signature then Inr False
         else (case secret of
                 None \<Rightarrow> Inr False
               | Some key \<Rightarrow>
                   if key = [] then Inr False
                   else (case sorted_param_string params of
                           Inl e \<Rightarrow> Inl e
                         | Inr message \<Rightarrow>
                             (let calculated = digest_hex (hmac key message);
                                  valid = (signature = Some (Str calculated))
                              in Inr valid))))"

text \<open>
  \<^verbatim>\<open>verifyShopifySignature(query)\<close> of the later revision: the same steps, the secret
  checked first.
\<close>

definition verifyShopifySignature ::
  "hmac_fun \<Rightarrow> string option \<Rightarrow> js_object \<Rightarrow> js_error + bool" where
  "verifyShopifySignature hmac secret query =
     (case secret of
        None \<Rightarrow> Inr False
      | Some key \<Rightarrow>
          if key = [] then Inr False
          else (let signature = get_prop query ''signature'';
                    params = rest_without ''signature'' query
                in if falsy signature then Inr False
                   else (case sorted_param_string params of
                           Inl e \<Rightarrow> Inl e
                         | Inr sortedParams \<Rightarrow>
                             (let calculatedSignature = digest_hex (hmac key sortedParams);
                                  isValid = (signature = Some (Str calculatedSignature))
                              in Inr isValid))))"

section \<open>The verifier on a store of objects\<close>

text \<open>
  JavaScript passes \<^verbatim>\<open>query\<close> by reference. To say what the verifier does to the object
  it is given, the objects live in a store, a reference is an index into it, and creating an
  object appends to the store. \<^verbatim>\<open>const { signature, ...params } = query\<close> reads the
  object behind \<^verbatim>\<open>query\<close> and creates the object \<^verbatim>\<open>params\<close>; destructuring a
  reference that holds no object raises a \<^verbatim>\<open>TypeError\<close>, and so does a value of
  \<^verbatim>\<open>params\<close> that has no string form. The arrays made by \<^verbatim>\<open>Object.keys\<close>,
  \<^verbatim>\<open>sort\<close> and \<^verbatim>\<open>map\<close> are temporaries of the call and hold strings only.
\<close>

type_synonym store = "js_object list"

definition store_get :: "store \<Rightarrow> nat \<Rightarrow> js_object option" where
  "store_get h r = (if r < length h then Some (h ! r) else None)"

definition store_new :: "store \<Rightarrow> js_object \<Rightarrow> nat \<times> store" where
  "store_new h obj = (length h, h @ [obj])"

definition verifyProxySignature_store ::
  "hmac_fun \<Rightarrow> string option \<Rightarrow> nat \<Rightarrow> store \<Rightarrow> (js_error + bool) \<times> store" where
  "verifyProxySignature_store hmac secret query h =
     (case store_get h query of
        None \<Rightarrow> (Inl TypeError, h)
      | Some q \<Rightarrow>
          (let signature = get_prop q ''signature'';
               (params, h1) = store_new h (rest_without ''signature'' q)
           in if falsy signature then (Inr False, h1)
              else (case secret of
                      None \<Rightarrow> (Inr False, h1)
                    | Some key \<Rightarrow>
                        if key = [] then (Inr False, h1)
                        else (case store_get h1 params of
                                None \<Rightarrow> (Inl TypeError, h1)
                              | Some ps \<Rightarrow>
                                  (case sorted_param_string ps of
                                     Inl e \<Rightarrow> (Inl e, h1)
                                   | Inr message \<Rightarrow>
                                       (let calculated = digest_hex (hmac key message);
                                            valid = (signature = Some (Str calculated))
                                        in (Inr valid, h1)))))))"

definition verifyShopifySignature_store ::
  "hmac_fun \<Rightarrow> string option \<Rightarrow> nat \<Rightarrow> store \<Rightarrow> (js_error + bool) \<times> store" where
  "verifyShopifySignature_store hmac secret query h =
     (case secret of
        None \<Rightarrow> (Inr False, h)
      | Some key \<Rightarrow>
          if key = [] then (Inr False, h)
          else (case store_get h query of
                  None \<Rightarrow> (Inl TypeError, h)
                | Some q \<Rightarrow>
                    (let signature = get_prop q ''signature'';
                         (params, h1) = store_new h (rest_without ''signature'' q)
                     in if falsy signature then (Inr False, h1)
                        else (case store_get h1 params of
                                None \<Rightarrow> (Inl TypeError, h1)
                              | Some ps \<Rightarrow>
                                  (case sorted_param_string ps of
                                     Inl e \<Rightarrow> (Inl e, h1)
                                   | Inr sortedParams \<Rightarrow>
                                       (let calculatedSignature =
                                              digest_hex (hmac key sortedParams);
                                            isValid = (signature = Some (Str calculatedSignature))
                                        in (Inr isValid, h1)))))))"

section \<open>The proxy route\<close>

text \<open>
  The two revisions of the route that check the signature are modelled; the earlier ones
  serve the file with no verifier at all and have nothing the claims speak of.
  What the handlers take from outside: the environment variables, the keyed hash, Node's
  \<^verbatim>\<open>path.join\<close> and \<^verbatim>\<open>__dirname\<close>, and the file system (\<^verbatim>\<open>fs.readFile\<close> gives the
  content or fails, \<^verbatim>\<open>fs.access\<close> succeeds or fails, \<^verbatim>\<open>fs.readdir\<close> lists or fails).
\<close>

record runtime =
  process_env :: "string \<Rightarrow> string option"
  crypto_hmac :: hmac_fun
  dirname :: string
  path_join :: "string list \<Rightarrow> string"
  fs_readFile :: "string \<Rightarrow> string option"
  fs_access :: "string \<Rightarrow> bool"
  fs_readdir :: "string \<Rightarrow> string list option"

text \<open>
  The response as the handler builds it: \<^verbatim>\<open>res.status\<close>, \<^verbatim>\<open>res.set\<close> and
  \<^verbatim>\<open>res.type\<close> for the two headers the handlers touch, \<^verbatim>\<open>res.send\<close>. A header is
  \<open>None\<close> until it is set, and holds the media type as the handler passes it. Express's
  \<^verbatim>\<open>res.send\<close> of a string sets the content type to HTML when none is set by then.
\<close>

record response =
  status :: nat
  content_type :: "string option"
  cache_control :: "string option"
  body :: string

definition new_response :: response where
  "new_response = \<lparr>status = 200, content_type = None, cache_control = None, body = []\<rparr>"

definition res_status :: "nat \<Rightarrow> response \<Rightarrow> response" where
  "res_status code res = res\<lparr>status := code\<rparr>"

definition res_type :: "string \<Rightarrow> response \<Rightarrow> response" where
  "res_type t res = res\<lparr>content_type := Some t\<rparr>"

definition res_set_content_type :: "string \<Rightarrow> response \<Rightarrow> response" where
  "res_set_content_type v res = res\<lparr>content_type := Some v\<rparr>"

definition res_set_cache_control :: "string \<Rightarrow> response \<Rightarrow> response" where
  "res_set_cache_control v res = res\<lparr>cache_control := Some v\<rparr>"

definition res_send :: "string \<Rightarrow> response \<Rightarrow> response" where
  "res_send b res =
     res\<lparr>content_type := (case content_type res of None \<Rightarrow> Some ''text/html'' | Some t \<Rightarrow> Some t),
         body := b\<rparr>"

text \<open>
  What a handler does with a request: it sends a response, or it throws out of the
  \<^verbatim>\<open>async\<close> function and sends none (the promise of the handler rejects).
\<close>

datatype outcome = Responded response | Unhandled js_error

text \<open>The calls a handler makes to the file system, in order.\<close>

datatype fs_call = ReadFile string | Access string | Readdir string

text \<open>
  The market identifier of both handlers:
  \<^verbatim>\<open>req.params.market.toLowerCase().replace('.xml', '')\<close>.
\<close>

definition market_of :: "string \<Rightarrow> string" where
  "market_of market_param = replace_first ''.xml'' [] (toLowerCase market_param)"

text \<open>
  The \<^verbatim>\<open>try\<close> block of the handler of \<^verbatim>\<open>server.js\<close>, which finds and reads the
  document; \<open>market_param\<close> is \<^verbatim>\<open>req.params.market\<close>. A failed read is the
  \<^verbatim>\<open>catch\<close> branch.
\<close>

definition serve_sitemap :: "runtime \<Rightarrow> string \<Rightarrow> outcome \<times> fs_call list" where
  "serve_sitemap rt market_param =
     (let market = market_of market_param;
          filePath = path_join rt [dirname rt, ''public'', ''sitemaps'', market @ ''.xml'']
      in case fs_readFile rt filePath of
           Some xmlContent \<Rightarrow>
             (Responded (res_send xmlContent
                (res_set_content_type ''application/xml; charset=utf-8'' new_response)),
              [ReadFile filePath])
         | None \<Rightarrow>
             (Responded (res_send (''Sitemap not found for market: '' @ market_param)
                (res_status 404 new_response)),
              [ReadFile filePath]))"

text \<open>
  \<^verbatim>\<open>app.get("/proxy/sitemaps/:market", ...)\<close> of \<^verbatim>\<open>server.js\<close>. The verifier is called
  before the \<^verbatim>\<open>try\<close> block: what it throws leaves the handler.
\<close>

definition proxy_sitemaps_handler ::
  "runtime \<Rightarrow> string \<Rightarrow> js_object \<Rightarrow> outcome \<times> fs_call list" where
  "proxy_sitemaps_handler rt market_param query =
     (let skipVerification = (process_env rt ''SKIP_VERIFICATION'' = Some ''true'')
      in if \<not> skipVerification
         then (case verifyProxySignature (crypto_hmac rt)
                      (process_env rt ''SHOPIFY_APP_SECRET'') query of
                 Inl e \<Rightarrow> (Unhandled e, [])
               | Inr valid \<Rightarrow>
                   if \<not> valid
                   then (Responded (res_send ''Forbidden'' (res_status 403 new_response)), [])
                   else serve_sitemap rt market_param)
         else serve_sitemap rt market_param)"

text \<open>\<^verbatim>\<open>sendXml(res, filePath)\<close> of the later revision.\<close>

definition sendXml :: "runtime \<Rightarrow> response \<Rightarrow> string \<Rightarrow> response \<times> fs_call list" where
  "sendXml rt res filePath =
     (let res1 = res_set_content_type ''application/xml; charset=utf-8'' res;
          res2 = res_set_cache_control ''public, max-age=3600'' res1
      in case fs_readFile rt filePath of
           Some xmlContent \<Rightarrow> (res_send xmlContent res2, [ReadFile filePath])
         | None \<Rightarrow>
             (res_send ''Sitemap not found'' (res_type ''text/plain'' (res_status 404 res2)),
              [ReadFile filePath]))"

text \<open>
  The later revision, after its signature check: the market, the \<^verbatim>\<open>400\<close> for an empty
  one, \<^verbatim>\<open>fs.access\<close>, then \<^verbatim>\<open>sendXml\<close>. \<^verbatim>\<open>fs.readdir\<close> is called for the log when
  \<^verbatim>\<open>fs.access\<close> fails. The failures of the file system are the inner \<^verbatim>\<open>catch\<close>
  branches.
\<close>

definition serve_sitemap_dev :: "runtime \<Rightarrow> string \<Rightarrow> outcome \<times> fs_call list" where
  "serve_sitemap_dev rt market_param =
     (let market = market_of market_param
      in if market = []
         then (Responded (res_send ''Market is required''
                 (res_type ''text/plain'' (res_status 400 new_response))), [])
         else (let fileName = market @ ''.xml'';
                   filePath = path_join rt [dirname rt, ''public'', ''sitemaps'', fileName]
               in if fs_access rt filePath
                  then (let (res, calls) = sendXml rt new_response filePath
                        in (Responded res, Access filePath # calls))
                  else (let sitemapsDir = path_join rt [dirname rt, ''public'', ''sitemaps'']
                        in (Responded (res_send (''Sitemap not found for market: '' @ market)
                              (res_type ''text/plain'' (res_status 404 new_response))),
                            [Access filePath, Readdir sitemapsDir]))))"

text \<open>
  \<^verbatim>\<open>app.get(["/proxy/sitemaps/:market", "/proxy/sitemaps/:market.xml"], ...)\<close> of the later
  revision. The whole body is in a \<^verbatim>\<open>try\<close>: what the verifier throws is caught and
  answered with \<^verbatim>\<open>500\<close>.
\<close>

definition proxy_sitemaps_handler_dev ::
  "runtime \<Rightarrow> string \<Rightarrow> js_object \<Rightarrow> outcome \<times> fs_call list" where
  "proxy_sitemaps_handler_dev rt market_param query =
     (let isDevelopment = (process_env rt ''NODE_ENV'' = Some ''development'')
      in if \<not> isDevelopment
         then (case verifyShopifySignature (crypto_hmac rt)
                      (process_env rt ''SHOPIFY_APP_SECRET'') query of
                 Inl e \<Rightarrow>
                   (Responded (res_send ''Internal server error''
                      (res_type ''text/plain'' (res_status 500 new_response))), [])
               | Inr valid \<Rightarrow>
                   if \<not> valid
                   then (Responded (res_send ''Forbidden''
                           (res_type ''text/plain'' (res_status 403 new_response))), [])
                   else serve_sitemap_dev rt market_param)
         else serve_sitemap_dev rt market_param)"

section \<open>The specification's wording\<close>



text \<open>
  The market identifier as the specification words it: lowercase, and a \<^verbatim>\<open>.xml\<close> at the
  end, only there, removed.
\<close>

definition spec_market :: "string \<Rightarrow> string" where
  "spec_market market_param =
     (let m = toLowerCase market_param
      in if endsWith m ''.xml'' then take (length m - 4) m else m)"

text \<open>Changing the value of the parameter \<open>name\<close> to \<open>v\<close>, every other property kept.\<close>

definition with_value :: "string \<Rightarrow> 'v \<Rightarrow> (string \<times> 'v) list \<Rightarrow> (string \<times> 'v) list" where
  "with_value name v query = map (\<lambda>p. if fst p = name then (name, v) else p) query"

section \<open>Tools of the proofs\<close>

text \<open>
  The steps of the message on parameters that are text already, and the relation between an
  object and the text its values are written as. The message of an object is the message of
  its written form (\<open>sorted_param_string_written\<close>).
\<close>

definition text_message :: "(string \<times> string) list \<Rightarrow> string" where
  "text_message params =
     join_empty (map (\<lambda>key. key @ ''='' @
                        (case get_prop params key of None \<Rightarrow> ''undefined'' | Some t \<Rightarrow> t))
                     (js_sort (object_keys params)))"

definition written_as :: "js_object \<Rightarrow> (string \<times> string) list \<Rightarrow> bool" where
  "written_as params ts =
     list_all2 (\<lambda>p q. fst p = fst q \<and> to_string (snd p) = Inr (snd q)) params ts"

text \<open>
  A keyed function for the concrete instances below, in place of Node's: 32 bytes that depend
  on the key and on the message.
\<close>

definition sample_mac :: hmac_fun where
  "sample_mac key msg =
     map (\<lambda>i. of_nat (sum_list (map of_char (key @ msg)) + i)) [0..<32]"

text \<open>
  A runtime for the concrete instances: the secret is set, neither bypass variable is, and
  one document, \<^verbatim>\<open>austria.xml\<close>, is in the store.
\<close>

definition sample_runtime :: runtime where
  "sample_runtime =
     \<lparr>process_env = [''SHOPIFY_APP_SECRET'' \<mapsto> ''shh''],
      crypto_hmac = sample_mac,
      dirname = ''/app'',
      path_join = (\<lambda>segments. foldr (\<lambda>a b. if b = [] then a else a @ ''/'' @ b) segments []),
      fs_readFile = [''/app/public/sitemaps/austria.xml'' \<mapsto> ''<urlset/>''],
      fs_access = (\<lambda>p. p = ''/app/public/sitemaps/austria.xml''),
      fs_readdir = [''/app/public/sitemaps'' \<mapsto> [''austria.xml'']]\<rparr>"

section \<open>Facts about the message and the digest\<close>

lemma verify_variants_agree:
  "verifyShopifySignature hmac secret query = verifyProxySignature hmac secret query"
  by (simp add: verifyShopifySignature_def verifyProxySignature_def Let_def split: option.splits)

lemma verify_no_signature:
  "falsy (get_prop query ''signature'') \<Longrightarrow> verifyProxySignature hmac secret query = Inr False"
  by (simp add: verifyProxySignature_def Let_def)

lemma verify_no_secret:
  "secret = None \<or> secret = Some [] \<Longrightarrow> verifyProxySignature hmac secret query = Inr False"
  by (auto simp: verifyProxySignature_def Let_def)

lemma verify_message:
  assumes "\<not> falsy (get_prop query ''signature'')" and "s \<noteq> []"
    and "sorted_param_string (rest_without ''signature'' query) = Inr m"
  shows "verifyProxySignature hmac (Some s) query =
           Inr (get_prop query ''signature'' = Some (Str (digest_hex (hmac s m))))"
  using assms by (simp add: verifyProxySignature_def Let_def)

lemma verify_raises:
  assumes "\<not> falsy (get_prop query ''signature'')" and "s \<noteq> []"
    and "sorted_param_string (rest_without ''signature'' query) = Inl e"
  shows "verifyProxySignature hmac (Some s) query = Inl e"
  using assms by (simp add: verifyProxySignature_def Let_def)

lemma length_hex_byte: "length (hex_byte b) = 2"
  by (simp add: hex_byte_def)

lemma length_digest_hex: "length (digest_hex bs) = 2 * length bs"
  by (induction bs) (simp_all add: digest_hex_def length_hex_byte)

lemma digest_hex_nonempty: "length bs = 32 \<Longrightarrow> digest_hex bs \<noteq> []"
  using length_digest_hex [of bs] by auto

lemma length_sample_mac: "length (sample_mac key msg) = 32"
  by (simp add: sample_mac_def)

lemma hex_digit_inj_table:
  "\<forall>m\<in>set [0..<16]. \<forall>n\<in>set [0..<16]. hex_digit m = hex_digit n \<longrightarrow> m = n"
  by code_simp

lemma hex_digit_inj:
  "m < 16 \<Longrightarrow> n < 16 \<Longrightarrow> hex_digit m = hex_digit n \<Longrightarrow> m = n"
  using hex_digit_inj_table by simp

lemma hex_byte_inj: "hex_byte a = hex_byte b \<Longrightarrow> a = b"
proof -
  assume h: "hex_byte a = hex_byte b"
  have la: "unat a < 256" and lb: "unat b < 256"
    using unsigned_less [of a, where ?'a = nat] unsigned_less [of b, where ?'a = nat] by simp_all
  have "unat a div 16 = unat b div 16"
    using h la lb by (intro hex_digit_inj) (simp_all add: hex_byte_def)
  moreover have "unat a mod 16 = unat b mod 16"
    using h by (intro hex_digit_inj) (simp_all add: hex_byte_def)
  ultimately have "unat a = unat b"
    by (metis div_mult_mod_eq)
  then show "a = b" by (simp add: word_unat_eq_iff)
qed

lemma digest_hex_inj: "digest_hex as = digest_hex bs \<Longrightarrow> as = bs"
proof (induction as arbitrary: bs)
  case Nil
  then show ?case by (cases bs) (simp_all add: digest_hex_def hex_byte_def)
next
  case (Cons a as)
  show ?case
  proof (cases bs)
    case Nil
    with Cons.prems show ?thesis by (simp add: digest_hex_def hex_byte_def)
  next
    case (Cons b bs')
    from Cons.prems Cons have e: "hex_byte a @ digest_hex as = hex_byte b @ digest_hex bs'"
      by (simp add: digest_hex_def)
    then have "hex_byte a = hex_byte b \<and> digest_hex as = digest_hex bs'"
      by (simp add: length_hex_byte)
    with Cons.IH Cons show ?thesis by (simp add: hex_byte_inj)
  qed
qed

lemma lower_hex_digit_table: "\<forall>n\<in>set [0..<16]. lower_char (hex_digit n) = hex_digit n"
  by code_simp

lemma lower_hex_digit: "lower_char (hex_digit n) = hex_digit n"
proof -
  have "n mod 16 < 16" by simp
  then have "lower_char (hex_digit (n mod 16)) = hex_digit (n mod 16)"
    using lower_hex_digit_table by simp
  then show ?thesis by (simp add: hex_digit_def)
qed

lemma toLowerCase_digest_hex: "toLowerCase (digest_hex bs) = digest_hex bs"
  by (induction bs) (simp_all add: digest_hex_def toLowerCase_def hex_byte_def lower_hex_digit)

subsection \<open>The message of parameters that are text\<close>




lemma distinct_rest_without:
  "distinct (map fst query) \<Longrightarrow> distinct (map fst (rest_without k query))"
  by (simp add: rest_without_def distinct_map_filter)


lemma concat_map_differs:
  assumes "k \<in> set ks" and "distinct ks"
    and "\<forall>x\<in>set ks. x \<noteq> k \<longrightarrow> f x = g x"
    and "f k = p @ a" and "g k = p @ b" and "a \<noteq> b"
  shows "concat (map f ks) \<noteq> concat (map g ks)"
proof -
  from assms(1) obtain us vs where ks: "ks = us @ k # vs"
    by (auto simp: in_set_conv_decomp)
  with assms(2) have nk: "k \<notin> set us" "k \<notin> set vs" by auto
  have u: "map f us = map g us" using assms(3) nk ks by (intro map_cong) auto
  have v: "map f vs = map g vs" using assms(3) nk ks by (intro map_cong) auto
  show ?thesis using assms(4-6) by (simp add: ks u v)
qed

lemma object_keys_with_value: "map fst (with_value name v query) = map fst query"
  by (induction query) (simp_all add: with_value_def)

lemma rest_without_with_value:
  "rest_without k (with_value name v query) = with_value name v (rest_without k query)"
  by (induction query) (simp_all add: with_value_def rest_without_def)

lemma get_prop_with_value_other:
  "x \<noteq> name \<Longrightarrow> get_prop (with_value name v ps) x = get_prop ps x"
  by (induction ps) (auto simp: with_value_def get_prop_def)

lemma get_prop_with_value_same:
  "name \<in> fst ` set ps \<Longrightarrow> get_prop (with_value name v ps) name = Some v"
  by (induction ps) (auto simp: with_value_def get_prop_def)

lemma with_value_same:
  "distinct (map fst ps) \<Longrightarrow> (name, v) \<in> set ps \<Longrightarrow> with_value name v ps = ps"
  unfolding with_value_def
  by (rule map_idI) (auto simp: eq_key_imp_eq_value)

lemma text_message_with_value:
  assumes "distinct (map fst ps)" and "(name, v) \<in> set ps" and "v' \<noteq> v"
  shows "text_message (with_value name v' ps) \<noteq> text_message ps"
proof -
  let ?ks = "js_sort (object_keys ps)"
  let ?w = "\<lambda>qs key. key @ ''='' @ (case get_prop qs key of None \<Rightarrow> ''undefined'' | Some t \<Rightarrow> t)"
  have k: "name \<in> set ?ks" using assms(2) by (force simp: js_sort_def object_keys_def)
  have d: "distinct ?ks" using assms(1) by (simp add: js_sort_def object_keys_def)
  have old: "get_prop ps name = Some v" using assms(1,2) by (simp add: get_prop_def)
  have new: "get_prop (with_value name v' ps) name = Some v'"
    using assms(2) by (intro get_prop_with_value_same) force
  have "concat (map (?w (with_value name v' ps)) ?ks) \<noteq> concat (map (?w ps) ?ks)"
    using k d
  proof (rule concat_map_differs)
    show "\<forall>x\<in>set ?ks. x \<noteq> name \<longrightarrow> ?w (with_value name v' ps) x = ?w ps x"
      by (simp add: get_prop_with_value_other)
    show "?w (with_value name v' ps) name = (name @ ''='') @ v'"
      by (simp add: new)
    show "?w ps name = (name @ ''='') @ v"
      by (simp add: old)
    show "v' \<noteq> v" by (rule assms(3))
  qed
  then show ?thesis
    by (simp add: text_message_def join_empty_def object_keys_def object_keys_with_value)
qed

subsection \<open>An object and its written form\<close>

lemma all_or_error_Inr: "all_or_error (map Inr xs) = Inr xs"
  by (induction xs) simp_all

lemma all_or_error_InrD: "all_or_error rs = Inr xs \<Longrightarrow> rs = map Inr xs"
  by (induction rs arbitrary: xs rule: all_or_error.induct) (auto split: sum.splits)

lemma all_or_error_Inr_iff: "all_or_error rs = Inr xs \<longleftrightarrow> rs = map Inr xs"
  using all_or_error_InrD all_or_error_Inr by blast

lemma written_as_keys: "written_as ps ts \<Longrightarrow> object_keys ps = object_keys ts"
  unfolding written_as_def object_keys_def
  by (induction ps ts rule: list_all2_induct) simp_all

lemma written_as_template:
  "written_as ps ts \<Longrightarrow>
     template_value (get_prop ps key) =
       Inr (case get_prop ts key of None \<Rightarrow> ''undefined'' | Some t \<Rightarrow> t)"
  unfolding written_as_def get_prop_def template_value_def
  by (induction ps ts rule: list_all2_induct) auto

lemma sorted_param_string_written:
  assumes "written_as ps ts"
  shows "sorted_param_string ps = Inr (text_message ts)"
proof -
  have "map (\<lambda>key. case template_value (get_prop ps key) of
                      Inl e \<Rightarrow> Inl e
                    | Inr t \<Rightarrow> Inr (key @ ''='' @ t))
            (js_sort (object_keys ps))
        = map Inr (map (\<lambda>key. key @ ''='' @
                          (case get_prop ts key of None \<Rightarrow> ''undefined'' | Some t \<Rightarrow> t))
                       (js_sort (object_keys ts)))"
    by (simp add: written_as_template [OF assms] written_as_keys [OF assms])
  then show ?thesis
    unfolding sorted_param_string_def text_message_def
    by (simp only: all_or_error_Inr sum.case)
qed



lemma written_as_with_value:
  "written_as ps ts \<Longrightarrow> to_string v' = Inr t' \<Longrightarrow>
     written_as (with_value name v' ps) (with_value name t' ts)"
  unfolding written_as_def with_value_def
  by (induction ps ts rule: list_all2_induct) simp_all

lemma written_as_member:
  "written_as ps ts \<Longrightarrow> (name, v) \<in> set ps \<Longrightarrow> to_string v = Inr t \<Longrightarrow> (name, t) \<in> set ts"
  unfolding written_as_def
  by (induction ps ts rule: list_all2_induct) auto

lemma written_as_exists:
  "\<forall>p\<in>set ps. \<exists>t. to_string (snd p) = Inr t \<Longrightarrow> \<exists>ts. written_as ps ts"
proof (induction ps)
  case Nil
  then show ?case by (simp add: written_as_def)
next
  case (Cons p ps)
  then obtain t ts where "to_string (snd p) = Inr t" and "written_as ps ts" by auto
  then have "written_as (p # ps) ((fst p, t) # ts)" by (simp add: written_as_def)
  then show ?case by blast
qed

lemma sorted_param_string_values:
  assumes "distinct (map fst ps)" and "sorted_param_string ps = Inr m" and "p \<in> set ps"
  shows "\<exists>t. to_string (snd p) = Inr t"
proof -
  let ?f = "\<lambda>key. case template_value (get_prop ps key) of
                     Inl e \<Rightarrow> Inl e
                   | Inr t \<Rightarrow> Inr (key @ ''='' @ t)"
  from assms(2) obtain xs where "all_or_error (map ?f (js_sort (object_keys ps))) = Inr xs"
    by (auto simp: sorted_param_string_def split: sum.splits)
  then have e: "map ?f (js_sort (object_keys ps)) = map Inr xs"
    by (simp add: all_or_error_Inr_iff)
  have "fst p \<in> set (js_sort (object_keys ps))"
    using assms(3) by (simp add: js_sort_def object_keys_def)
  then have "?f (fst p) \<in> set (map ?f (js_sort (object_keys ps)))" by simp
  then have "?f (fst p) \<in> set (map Inr xs)" by (simp only: e)
  then obtain x where x: "?f (fst p) = Inr x" by auto
  have g: "get_prop ps (fst p) = Some (snd p)"
    using assms(1,3) by (simp add: get_prop_def)
  from x show ?thesis
    by (auto simp: g template_value_def split: sum.splits)
qed

lemma sorted_param_string_Inr_written:
  assumes "distinct (map fst ps)" and "sorted_param_string ps = Inr m"
  shows "\<exists>ts. written_as ps ts \<and> m = text_message ts"
proof -
  have "\<forall>p\<in>set ps. \<exists>t. to_string (snd p) = Inr t"
    using sorted_param_string_values [OF assms] by blast
  then obtain ts where w: "written_as ps ts" using written_as_exists by blast
  with assms(2) have "m = text_message ts" by (simp add: sorted_param_string_written)
  with w show ?thesis by blast
qed

lemma sorted_param_string_raises:
  assumes "distinct (map fst ps)" and "p \<in> set ps" and "to_string (snd p) = Inl e"
  shows "sorted_param_string ps = Inl TypeError"
proof (cases "sorted_param_string ps")
  case (Inl e')
  then show ?thesis by (cases e') simp
next
  case (Inr m)
  from sorted_param_string_values [OF assms(1) Inr assms(2)] assms(3) show ?thesis by simp
qed

lemma written_as_distinct:
  "written_as ps ts \<Longrightarrow> distinct (map fst ps) \<Longrightarrow> distinct (map fst ts)"
  using written_as_keys [of ps ts] by (simp add: object_keys_def)

lemma sorted_param_string_order:
  assumes "distinct (map fst q1)" and "distinct (map fst q2)" and "set q1 = set q2"
  shows "sorted_param_string (rest_without k q1) = sorted_param_string (rest_without k q2)"
proof -
  let ?p1 = "rest_without k q1" and ?p2 = "rest_without k q2"
  have d1: "distinct (map fst ?p1)" and d2: "distinct (map fst ?p2)"
    using assms(1,2) by (simp_all add: distinct_rest_without)
  have s: "set ?p1 = set ?p2" using assms(3) by (simp add: rest_without_def)
  have m: "map_of ?p1 = map_of ?p2" using d1 d2 s by (simp add: map_of_inject_set)
  have "sort (map fst ?p1) = sort (map fst ?p2)"
  proof (rule sorted_distinct_set_unique)
    show "set (sort (map fst ?p1)) = set (sort (map fst ?p2))" using s by simp
  qed (use d1 d2 in simp_all)
  then show ?thesis
    by (simp add: sorted_param_string_def js_sort_def object_keys_def get_prop_def m)
qed

lemma get_prop_order:
  assumes "distinct (map fst q1)" and "distinct (map fst q2)" and "set q1 = set q2"
  shows "get_prop q1 k = get_prop q2 k"
  using map_of_inject_set [OF assms(1,2)] assms(3) by (simp add: get_prop_def)


lemma absent_signature:
  "''signature'' \<notin> fst ` set query \<Longrightarrow> get_prop query ''signature'' = None"
  by (simp add: get_prop_def map_of_eq_None_iff)

subsection \<open>The verifier on the store\<close>

lemma verifyProxySignature_store_eq:
  assumes "store_get h r = Some query"
  shows "verifyProxySignature_store hmac secret r h =
           (verifyProxySignature hmac secret query,
            h @ [rest_without ''signature'' query])"
  using assms
  by (simp add: verifyProxySignature_store_def verifyProxySignature_def store_new_def
                store_get_def Let_def split: option.splits sum.splits)

lemma verifyShopifySignature_store_eq:
  assumes "store_get h r = Some query"
  shows "verifyShopifySignature_store hmac secret r h =
           (verifyShopifySignature hmac secret query,
            if secret = None \<or> secret = Some [] then h
            else h @ [rest_without ''signature'' query])"
  using assms
  by (simp add: verifyShopifySignature_store_def verifyShopifySignature_def store_new_def
                store_get_def Let_def split: option.splits sum.splits)

lemma store_get_append: "r < length h \<Longrightarrow> store_get (h @ xs) r = store_get h r"
  by (simp add: store_get_def nth_append)




section \<open>The claims about the verifier\<close>



lemma rest_writable:
  assumes "\<forall>p\<in>set query. fst p \<noteq> ''signature'' \<longrightarrow> (\<exists>t. to_string (snd p) = Inr t)"
  shows "\<exists>m. sorted_param_string (rest_without ''signature'' query) = Inr m"
proof -
  have "\<forall>p\<in>set (rest_without ''signature'' query). \<exists>t. to_string (snd p) = Inr t"
    using assms by (simp add: rest_without_def)
  then obtain ts where "written_as (rest_without ''signature'' query) ts"
    using written_as_exists by blast
  then show ?thesis by (auto dest: sorted_param_string_written)
qed

lemma rest_unwritable:
  assumes "distinct (map fst query)" and "p \<in> set query" and "fst p \<noteq> ''signature''"
    and "to_string (snd p) = Inl e"
  shows "sorted_param_string (rest_without ''signature'' query) = Inl TypeError"
proof (rule sorted_param_string_raises)
  show "distinct (map fst (rest_without ''signature'' query))"
    using assms(1) by (rule distinct_rest_without)
  show "p \<in> set (rest_without ''signature'' query)"
    using assms(2,3) by (simp add: rest_without_def)
  show "to_string (snd p) = Inl e" by (rule assms(4))
qed

lemma verify_result:
  "\<exists>m. sorted_param_string (rest_without ''signature'' query) = Inr m \<Longrightarrow>
   \<exists>b. verifyProxySignature hmac secret query = Inr b"
  by (auto simp: verifyProxySignature_def Let_def split: option.splits)

text \<open>
  C2, as the code has it. The verifier returns false, and raises nothing, when the
  \<^verbatim>\<open>signature\<close> parameter is absent and when the secret is unset or empty, whatever the
  other parameters hold. When every other parameter value has a string form (a string, an
  array of such values, an object without an own \<^verbatim>\<open>toString\<close> property) it returns a
  boolean, and false when the value of \<^verbatim>\<open>signature\<close> is not the computed digest. With a
  signature and a secret present, a parameter value without a string form makes it raise a
  \<^verbatim>\<open>TypeError\<close>. Stated on the store model.
\<close>

theorem verifier_false_cases:
  assumes "store_get h r = Some query" and "distinct (map fst query)"
  shows "(''signature'' \<notin> fst ` set query \<longrightarrow>
            fst (verifyProxySignature_store hmac secret r h) = Inr False \<and>
            fst (verifyShopifySignature_store hmac secret r h) = Inr False)
       \<and> (secret = None \<or> secret = Some [] \<longrightarrow>
            fst (verifyProxySignature_store hmac secret r h) = Inr False \<and>
            fst (verifyShopifySignature_store hmac secret r h) = Inr False)
       \<and> ((\<forall>p\<in>set query. fst p \<noteq> ''signature'' \<longrightarrow> (\<exists>t. to_string (snd p) = Inr t)) \<longrightarrow>
            (\<exists>m. sorted_param_string (rest_without ''signature'' query) = Inr m) \<and>
            (\<exists>b. fst (verifyProxySignature_store hmac secret r h) = Inr b) \<and>
            (\<exists>b. fst (verifyShopifySignature_store hmac secret r h) = Inr b))
       \<and> (\<forall>key m. secret = Some key \<and>
              sorted_param_string (rest_without ''signature'' query) = Inr m \<and>
              get_prop query ''signature'' \<noteq> Some (Str (digest_hex (hmac key m))) \<longrightarrow>
            fst (verifyProxySignature_store hmac secret r h) = Inr False \<and>
            fst (verifyShopifySignature_store hmac secret r h) = Inr False)
       \<and> ((\<exists>p\<in>set query. fst p \<noteq> ''signature'' \<and> to_string (snd p) = Inl TypeError) \<and>
          \<not> falsy (get_prop query ''signature'') \<and> (\<exists>key. secret = Some key \<and> key \<noteq> []) \<longrightarrow>
            fst (verifyProxySignature_store hmac secret r h) = Inl TypeError \<and>
            fst (verifyShopifySignature_store hmac secret r h) = Inl TypeError)"
proof -
  have a: "verifyProxySignature hmac secret query = Inr False"
    if "''signature'' \<notin> fst ` set query"
    using that by (simp add: verify_no_signature absent_signature)
  have b: "verifyProxySignature hmac secret query = Inr False"
    if "secret = None \<or> secret = Some []"
    using that by (rule verify_no_secret)
  have c: "(\<exists>m. sorted_param_string (rest_without ''signature'' query) = Inr m) \<and>
           (\<exists>b. verifyProxySignature hmac secret query = Inr b)"
    if "\<forall>p\<in>set query. fst p \<noteq> ''signature'' \<longrightarrow> (\<exists>t. to_string (snd p) = Inr t)"
    using rest_writable [OF that] verify_result by blast
  have d: "verifyProxySignature hmac secret query = Inr False"
    if "secret = Some key" "sorted_param_string (rest_without ''signature'' query) = Inr m"
       "get_prop query ''signature'' \<noteq> Some (Str (digest_hex (hmac key m)))" for key m
    using that by (simp add: verifyProxySignature_def Let_def)
  have e: "verifyProxySignature hmac secret query = Inl TypeError"
    if "\<exists>p\<in>set query. fst p \<noteq> ''signature'' \<and> to_string (snd p) = Inl TypeError"
       "\<not> falsy (get_prop query ''signature'')" "\<exists>key. secret = Some key \<and> key \<noteq> []"
  proof -
    from that(1) obtain p where "p \<in> set query" "fst p \<noteq> ''signature''"
      "to_string (snd p) = Inl TypeError" by blast
    then have "sorted_param_string (rest_without ''signature'' query) = Inl TypeError"
      using assms(2) by (intro rest_unwritable)
    with that(2,3) show ?thesis by (auto simp: verify_raises)
  qed
  show ?thesis
    unfolding verifyProxySignature_store_eq [OF assms(1)]
              verifyShopifySignature_store_eq [OF assms(1)] verify_variants_agree fst_conv
    using a b c d e by blast
qed

theorem verifier_false_cases_witness:
  "store_get [[(''shop'', Arr [Str ''x'', Str ''y'']), (''signature'', Str ''00'')]] 0
     = Some [(''shop'', Arr [Str ''x'', Str ''y'']), (''signature'', Str ''00'')]
   \<and> sorted_param_string
        (rest_without ''signature'' [(''shop'', Arr [Str ''x'', Str ''y'']), (''signature'', Str ''00'')])
       = Inr ''shop=x,y''
   \<and> fst (verifyProxySignature_store sample_mac (Some ''shh'') 0
            [[(''shop'', Arr [Str ''x'', Str ''y'']), (''signature'', Str ''00'')]]) = Inr False
   \<and> fst (verifyShopifySignature_store sample_mac (Some ''shh'') 0
            [[(''shop'', Arr [Str ''x'', Str ''y'']), (''signature'', Str ''00'')]]) = Inr False
   \<and> fst (verifyProxySignature_store sample_mac (Some ''shh'') 0
            [[(''shop'', Arr [Str ''x'', Str ''y''])]]) = Inr False
   \<and> fst (verifyShopifySignature_store sample_mac None 0
            [[(''shop'', Arr [Str ''x'', Str ''y'']), (''signature'', Str ''00'')]]) = Inr False"
proof -
  let ?q = "[(''shop'', Arr [Str ''x'', Str ''y'']), (''signature'', Str ''00'')]"
  let ?q' = "[(''shop'', Arr [Str ''x'', Str ''y''])]"
  have g: "store_get [?q] 0 = Some ?q" and g': "store_get [?q'] 0 = Some ?q'"
    by (simp_all add: store_get_def)
  have d: "distinct (map fst ?q)" and d': "distinct (map fst ?q')" by simp_all
  have m: "sorted_param_string (rest_without ''signature'' ?q) = Inr ''shop=x,y''" by code_simp
  have "length (digest_hex (sample_mac ''shh'' ''shop=x,y'')) = 64"
    by (simp add: length_digest_hex length_sample_mac)
  then have "digest_hex (sample_mac ''shh'' ''shop=x,y'') \<noteq> ''00''" by auto
  then have n: "get_prop ?q ''signature''
                \<noteq> Some (Str (digest_hex (sample_mac ''shh'' ''shop=x,y'')))"
    by (auto simp: get_prop_def)
  have a: "''signature'' \<notin> fst ` set ?q'" by simp
  show ?thesis
    using verifier_false_cases [OF g d, of sample_mac "Some ''shh''"]
          verifier_false_cases [OF g' d', of sample_mac "Some ''shh''"]
          verifier_false_cases [OF g d, of sample_mac None] g m n a
    by simp
qed

theorem verifier_raises_counterexample:
  "verifyProxySignature sample_mac (Some ''shh'')
     [(''a'', Obj [(''toString'', Str ''1'')]), (''signature'', Str ''x'')] = Inl TypeError
   \<and> verifyShopifySignature sample_mac (Some ''shh'')
     [(''a'', Obj [(''toString'', Str ''1'')]), (''signature'', Str ''x'')] = Inl TypeError
   \<and> fst (verifyProxySignature_store sample_mac (Some ''shh'') 0
       [[(''a'', Obj [(''toString'', Str ''1'')]), (''signature'', Str ''x'')]]) = Inl TypeError
   \<and> fst (verifyShopifySignature_store sample_mac (Some ''shh'') 0
       [[(''a'', Obj [(''toString'', Str ''1'')]), (''signature'', Str ''x'')]]) = Inl TypeError"
  by code_simp

text \<open>
  C10. The verifier does not change the object it is given: after the call every object that
  was in the store, the query among them, is what it was before. The parameters without
  \<^verbatim>\<open>signature\<close> are a new object, added to the store.
\<close>

theorem verifier_keeps_input:
  assumes "store_get h r = Some query"
  shows "(\<forall>a < length h.
            store_get (snd (verifyProxySignature_store hmac secret r h)) a = store_get h a)
       \<and> store_get (snd (verifyProxySignature_store hmac secret r h)) r = Some query
       \<and> (\<forall>a < length h.
            store_get (snd (verifyShopifySignature_store hmac secret r h)) a = store_get h a)
       \<and> store_get (snd (verifyShopifySignature_store hmac secret r h)) r = Some query"
proof -
  have r: "r < length h" using assms by (simp add: store_get_def split: if_splits)
  show ?thesis
    using r assms
    by (simp add: verifyProxySignature_store_eq [OF assms]
                  verifyShopifySignature_store_eq [OF assms] store_get_append)
qed

theorem verifier_keeps_input_witness:
  "store_get [[(''a'', Str ''1''), (''signature'', Str ''0f'')]] 0
     = Some [(''a'', Str ''1''), (''signature'', Str ''0f'')]
   \<and> store_get (snd (verifyProxySignature_store sample_mac (Some ''shh'') 0
                       [[(''a'', Str ''1''), (''signature'', Str ''0f'')]])) 0
       = Some [(''a'', Str ''1''), (''signature'', Str ''0f'')]
   \<and> store_get (snd (verifyShopifySignature_store sample_mac (Some ''shh'') 0
                       [[(''a'', Str ''1''), (''signature'', Str ''0f'')]])) 0
       = Some [(''a'', Str ''1''), (''signature'', Str ''0f'')]"
proof -
  have g: "store_get [[(''a'', Str ''1''), (''signature'', Str ''0f'')]] 0
           = Some [(''a'', Str ''1''), (''signature'', Str ''0f'')]"
    by (simp add: store_get_def)
  show ?thesis
    using verifier_keeps_input [OF g, of sample_mac "Some ''shh''"] g by simp
qed

lemma get_prop_signature_with_value:
  "name \<noteq> ''signature'' \<Longrightarrow>
     get_prop (with_value name v query) ''signature'' = get_prop query ''signature''"
  by (rule get_prop_with_value_other) simp

lemma same_written_form_accepted:
  assumes "distinct (map fst query)" and "name \<noteq> ''signature''" and "(name, v) \<in> set query"
    and "to_string v = Inr t" and "to_string v' = Inr t"
    and "sorted_param_string (rest_without ''signature'' query) = Inr m"
  shows "sorted_param_string (rest_without ''signature'' (with_value name v' query)) = Inr m
       \<and> verifyProxySignature hmac secret (with_value name v' query)
           = verifyProxySignature hmac secret query"
proof -
  let ?ps = "rest_without ''signature'' query"
  have d: "distinct (map fst ?ps)" using assms(1) by (rule distinct_rest_without)
  from sorted_param_string_Inr_written [OF d assms(6)]
  obtain ts where w: "written_as ?ps ts" and m: "m = text_message ts" by blast
  have i: "(name, v) \<in> set ?ps" using assms(2,3) by (simp add: rest_without_def)
  have "(name, t) \<in> set ts" using w i assms(4) by (rule written_as_member)
  then have same: "with_value name t ts = ts"
    using written_as_distinct [OF w d] by (intro with_value_same)
  have "written_as (with_value name v' ?ps) (with_value name t ts)"
    using w assms(5) by (rule written_as_with_value)
  then have e: "sorted_param_string (rest_without ''signature'' (with_value name v' query)) = Inr m"
    by (simp add: rest_without_with_value sorted_param_string_written same m)
  have "verifyProxySignature hmac secret (with_value name v' query)
          = verifyProxySignature hmac secret query"
    unfolding verifyProxySignature_def Let_def e assms(6)
              get_prop_signature_with_value [OF assms(2)]
    by (rule refl)
  with e show ?thesis by simp
qed

text \<open>
  C3, as the code has it. For a query object with a \<^verbatim>\<open>signature\<close> property and a
  configured secret: when the value of \<^verbatim>\<open>signature\<close> is the digest of the remaining
  parameters under the secret, verification succeeds. When the value of one other parameter is
  changed, the message changes exactly when the string form of the value changes, and the
  changed object is accepted exactly when the keyed hash gives its message the code of the
  original message. So a change of the written value is rejected unless the hash collides, and
  a change that keeps the string form (the text \<^verbatim>\<open>1,2\<close> to the array of \<^verbatim>\<open>1\<close> and
  \<^verbatim>\<open>2\<close>) is accepted.
\<close>

theorem tampered_value:
  assumes "distinct (map fst query)" and "s \<noteq> []"
    and "sorted_param_string (rest_without ''signature'' query) = Inr m"
    and "length (hmac s m) = 32"
    and "get_prop query ''signature'' = Some (Str (digest_hex (hmac s m)))"
  shows "verifyProxySignature hmac (Some s) query = Inr True
       \<and> verifyShopifySignature hmac (Some s) query = Inr True
       \<and> (\<forall>name v v' t t'.
             name \<noteq> ''signature'' \<and> (name, v) \<in> set query \<and>
             to_string v = Inr t \<and> to_string v' = Inr t' \<longrightarrow>
             (\<exists>m'. sorted_param_string (rest_without ''signature'' (with_value name v' query))
                      = Inr m'
                  \<and> (m' = m \<longleftrightarrow> t' = t)
                  \<and> verifyProxySignature hmac (Some s) (with_value name v' query)
                      = Inr (hmac s m' = hmac s m)
                  \<and> verifyShopifySignature hmac (Some s) (with_value name v' query)
                      = Inr (hmac s m' = hmac s m)))"
proof -
  let ?ps = "rest_without ''signature'' query"
  have ne: "digest_hex (hmac s m) \<noteq> []" using assms(4) by (rule digest_hex_nonempty)
  have nf: "\<not> falsy (get_prop query ''signature'')" using assms(5) ne by simp
  have ok: "verifyProxySignature hmac (Some s) query = Inr True"
    using verify_message [OF nf assms(2,3), of hmac] assms(5) by simp
  have d: "distinct (map fst ?ps)" using assms(1) by (rule distinct_rest_without)
  from sorted_param_string_Inr_written [OF d assms(3)]
  obtain ts where w: "written_as ?ps ts" and m: "m = text_message ts" by blast
  have dt: "distinct (map fst ts)" using w d by (rule written_as_distinct)
  have tam: "\<exists>m'. sorted_param_string (rest_without ''signature'' (with_value name v' query))
                      = Inr m'
                  \<and> (m' = m \<longleftrightarrow> t' = t)
                  \<and> verifyProxySignature hmac (Some s) (with_value name v' query)
                      = Inr (hmac s m' = hmac s m)"
    if h: "name \<noteq> ''signature''" "(name, v) \<in> set query"
          "to_string v = Inr t" "to_string v' = Inr t'" for name v v' t t'
  proof -
    let ?q' = "with_value name v' query"
    let ?m' = "text_message (with_value name t' ts)"
    have i: "(name, v) \<in> set ?ps" using h(1,2) by (simp add: rest_without_def)
    have it: "(name, t) \<in> set ts" using w i h(3) by (rule written_as_member)
    have "written_as (with_value name v' ?ps) (with_value name t' ts)"
      using w h(4) by (rule written_as_with_value)
    then have e: "sorted_param_string (rest_without ''signature'' ?q') = Inr ?m'"
      by (simp add: rest_without_with_value sorted_param_string_written)
    have c: "?m' = m \<longleftrightarrow> t' = t"
    proof
      assume "?m' = m"
      then show "t' = t" using text_message_with_value [OF dt it, of t'] m by auto
    next
      assume "t' = t"
      then show "?m' = m" using with_value_same [OF dt it] m by simp
    qed
    have nf': "\<not> falsy (get_prop ?q' ''signature'')"
      using nf by (simp add: get_prop_signature_with_value [OF h(1)])
    have "verifyProxySignature hmac (Some s) ?q' =
            Inr (get_prop ?q' ''signature'' = Some (Str (digest_hex (hmac s ?m'))))"
      using nf' assms(2) e by (rule verify_message)
    also have "\<dots> = Inr (hmac s ?m' = hmac s m)"
      using digest_hex_inj [of "hmac s m" "hmac s ?m'"]
      by (auto simp: get_prop_signature_with_value [OF h(1)] assms(5))
    finally show ?thesis using e c by blast
  qed
  show ?thesis unfolding verify_variants_agree using ok tam by blast
qed

theorem tampered_value_witness:
  "verifyProxySignature sample_mac (Some ''shh'') [(''shop'', Str ''x''), (''signature'',
       Str ''8182838485868788898a8b8c8d8e8f909192939495969798999a9b9c9d9e9fa0''),
       (''a'', Str ''1'')] = Inr True
   \<and> verifyProxySignature sample_mac (Some ''shh'') (with_value ''a'' (Str ''2'')
        [(''shop'', Str ''x''), (''signature'',
       Str ''8182838485868788898a8b8c8d8e8f909192939495969798999a9b9c9d9e9fa0''),
       (''a'', Str ''1'')]) = Inr False"
proof -
  let ?q = "[(''shop'', Str ''x''), (''signature'',
       Str ''8182838485868788898a8b8c8d8e8f909192939495969798999a9b9c9d9e9fa0''),
       (''a'', Str ''1'')]"
  have d: "distinct (map fst ?q)" by simp
  have s: "''shh'' \<noteq> []" by simp
  have m: "sorted_param_string (rest_without ''signature'' ?q) = Inr ''a=1shop=x''" by code_simp
  have m': "sorted_param_string (rest_without ''signature'' (with_value ''a'' (Str ''2'') ?q))
            = Inr ''a=2shop=x''"
    by code_simp
  have l: "length (sample_mac ''shh'' ''a=1shop=x'') = 32"
    by (rule length_sample_mac)
  have g: "digest_hex (sample_mac ''shh'' ''a=1shop=x'') =
           ''8182838485868788898a8b8c8d8e8f909192939495969798999a9b9c9d9e9fa0''" by code_simp
  have p: "get_prop ?q ''signature'' =
           Some (Str (digest_hex (sample_mac ''shh'' ''a=1shop=x'')))"
    by (simp add: g) (simp add: get_prop_def)
  have c: "sample_mac ''shh'' ''a=2shop=x'' \<noteq> sample_mac ''shh'' ''a=1shop=x''" by code_simp
  have i: "(''a'', Str ''1'') \<in> set ?q" by simp
  from tampered_value [where hmac = sample_mac and s = "''shh''" and query = ?q, OF d s m l p]
  have ok: "verifyProxySignature sample_mac (Some ''shh'') ?q = Inr True"
    and t: "\<And>name v v' t t'. name \<noteq> ''signature'' \<Longrightarrow> (name, v) \<in> set ?q \<Longrightarrow>
             to_string v = Inr t \<Longrightarrow> to_string v' = Inr t' \<Longrightarrow>
             \<exists>m'. sorted_param_string (rest_without ''signature'' (with_value name v' ?q))
                     = Inr m'
                 \<and> verifyProxySignature sample_mac (Some ''shh'') (with_value name v' ?q)
                     = Inr (sample_mac ''shh'' m' = sample_mac ''shh'' ''a=1shop=x'')"
    by blast+
  from t [of "''a''" "Str ''1''" "''1''" "Str ''2''" "''2''"] i
  obtain m2 where "sorted_param_string (rest_without ''signature'' (with_value ''a'' (Str ''2'') ?q))
                     = Inr m2"
    and v: "verifyProxySignature sample_mac (Some ''shh'') (with_value ''a'' (Str ''2'') ?q)
              = Inr (sample_mac ''shh'' m2 = sample_mac ''shh'' ''a=1shop=x'')"
    by auto
  then have "m2 = ''a=2shop=x''" by (simp only: m') simp
  with v c have "verifyProxySignature sample_mac (Some ''shh'') (with_value ''a'' (Str ''2'') ?q)
                   = Inr False" by simp
  with ok show ?thesis by simp
qed

theorem same_text_accepted_counterexample:
  "Arr [Str ''1'', Str ''2''] \<noteq> Str ''1,2''
   \<and> verifyProxySignature sample_mac (Some ''shh'') [(''a'', Str ''1,2''), (''signature'',
       Str ''707172737475767778797a7b7c7d7e7f808182838485868788898a8b8c8d8e8f'')] = Inr True
   \<and> verifyProxySignature sample_mac (Some ''shh'') (with_value ''a'' (Arr [Str ''1'', Str ''2''])
       [(''a'', Str ''1,2''), (''signature'',
       Str ''707172737475767778797a7b7c7d7e7f808182838485868788898a8b8c8d8e8f'')]) = Inr True
   \<and> verifyShopifySignature sample_mac (Some ''shh'') (with_value ''a'' (Arr [Str ''1'', Str ''2''])
       [(''a'', Str ''1,2''), (''signature'',
       Str ''707172737475767778797a7b7c7d7e7f808182838485868788898a8b8c8d8e8f'')]) = Inr True
   \<and> sorted_param_string [(''a'', Str ''1,2'')] = Inr ''a=1,2''
   \<and> sorted_param_string [(''a'', Arr [Str ''1'', Str ''2''])] = Inr ''a=1,2''"
  by code_simp

text \<open>
  C4. Two query objects with the same properties, inserted in different orders, give the same
  message, and each verifier gives the same answer on both for the same secret.
\<close>

theorem insertion_order_irrelevant:
  assumes "distinct (map fst q1)" and "distinct (map fst q2)" and "set q1 = set q2"
  shows "sorted_param_string (rest_without ''signature'' q1)
           = sorted_param_string (rest_without ''signature'' q2)
       \<and> verifyProxySignature hmac secret q1 = verifyProxySignature hmac secret q2
       \<and> verifyShopifySignature hmac secret q1 = verifyShopifySignature hmac secret q2"
proof -
  have m: "sorted_param_string (rest_without ''signature'' q1)
           = sorted_param_string (rest_without ''signature'' q2)"
    using assms by (rule sorted_param_string_order)
  have g: "get_prop q1 ''signature'' = get_prop q2 ''signature''"
    using assms by (rule get_prop_order)
  have "verifyProxySignature hmac secret q1 = verifyProxySignature hmac secret q2"
    unfolding verifyProxySignature_def Let_def m g by (rule refl)
  with m show ?thesis by (simp add: verify_variants_agree)
qed

theorem insertion_order_irrelevant_witness:
  "set [(''shop'', Str ''x''), (''signature'', Str ''0f''), (''a'', Str ''1'')]
     = set [(''a'', Str ''1''), (''shop'', Str ''x''), (''signature'', Str ''0f'')]
   \<and> sorted_param_string (rest_without ''signature''
         [(''shop'', Str ''x''), (''signature'', Str ''0f''), (''a'', Str ''1'')]) = Inr ''a=1shop=x''
   \<and> sorted_param_string (rest_without ''signature''
         [(''a'', Str ''1''), (''shop'', Str ''x''), (''signature'', Str ''0f'')]) = Inr ''a=1shop=x''
   \<and> verifyProxySignature sample_mac (Some ''shh'')
         [(''shop'', Str ''x''), (''signature'', Str ''0f''), (''a'', Str ''1'')]
     = verifyProxySignature sample_mac (Some ''shh'')
         [(''a'', Str ''1''), (''shop'', Str ''x''), (''signature'', Str ''0f'')]"
proof -
  let ?q1 = "[(''shop'', Str ''x''), (''signature'', Str ''0f''), (''a'', Str ''1'')]"
  let ?q2 = "[(''a'', Str ''1''), (''shop'', Str ''x''), (''signature'', Str ''0f'')]"
  have d1: "distinct (map fst ?q1)" and d2: "distinct (map fst ?q2)" by simp_all
  have e: "set ?q1 = set ?q2" by auto
  have m: "sorted_param_string (rest_without ''signature'' ?q2) = Inr ''a=1shop=x''" by code_simp
  show ?thesis
    using insertion_order_irrelevant [OF d1 d2 e, of sample_mac "Some ''shh''"] e m
    by simp
qed

text \<open>
  C8. The comparison is case-sensitive: a supplied \<^verbatim>\<open>signature\<close> that is not the computed
  digest but becomes it when its letters are put in lowercase is rejected. (By
  \<open>toLowerCase_digest_hex\<close> the computed digest is its own lowercase form; by
  \<open>sorted_param_string_text_query\<close> the message is there for every mapping to text.)
\<close>

theorem signature_case_sensitive:
  assumes "get_prop query ''signature'' = Some (Str g)"
    and "sorted_param_string (rest_without ''signature'' query) = Inr m"
    and "toLowerCase g = digest_hex (hmac s m)"
    and "g \<noteq> digest_hex (hmac s m)"
  shows "verifyProxySignature hmac (Some s) query = Inr False
       \<and> verifyShopifySignature hmac (Some s) query = Inr False"
  using assms(1,2,4) by (simp add: verify_variants_agree verifyProxySignature_def)

theorem signature_case_sensitive_witness:
  "toLowerCase ''8182838485868788898A8B8C8D8E8F909192939495969798999A9B9C9D9E9FA0''
     = digest_hex (sample_mac ''shh'' ''a=1shop=x'')
   \<and> verifyProxySignature sample_mac (Some ''shh'') [(''shop'', Str ''x''), (''signature'',
       Str ''8182838485868788898A8B8C8D8E8F909192939495969798999A9B9C9D9E9FA0''),
       (''a'', Str ''1'')] = Inr False
   \<and> verifyShopifySignature sample_mac (Some ''shh'') [(''shop'', Str ''x''), (''signature'',
       Str ''8182838485868788898A8B8C8D8E8F909192939495969798999A9B9C9D9E9FA0''),
       (''a'', Str ''1'')] = Inr False"
proof -
  let ?g = "''8182838485868788898A8B8C8D8E8F909192939495969798999A9B9C9D9E9FA0''"
  let ?q = "[(''shop'', Str ''x''), (''signature'', Str ?g), (''a'', Str ''1'')]"
  have p: "get_prop ?q ''signature'' = Some (Str ?g)" by (simp add: get_prop_def)
  have m: "sorted_param_string (rest_without ''signature'' ?q) = Inr ''a=1shop=x''" by code_simp
  have c: "digest_hex (sample_mac ''shh'' ''a=1shop=x'')
           = ''8182838485868788898a8b8c8d8e8f909192939495969798999a9b9c9d9e9fa0''"
    by code_simp
  have lo: "toLowerCase ?g = ''8182838485868788898a8b8c8d8e8f909192939495969798999a9b9c9d9e9fa0''"
    by code_simp
  have l: "toLowerCase ?g = digest_hex (sample_mac ''shh'' ''a=1shop=x'')"
    by (simp only: c lo)
  have n: "?g \<noteq> digest_hex (sample_mac ''shh'' ''a=1shop=x'')"
    by (simp only: c) simp
  show ?thesis
    using signature_case_sensitive [where hmac = sample_mac and s = "''shh''", OF p m l n] l
    by simp
qed

text \<open>
  C9. For a query object whose only property is \<^verbatim>\<open>signature\<close> and a configured secret,
  the message is the empty string, and verification succeeds exactly when the supplied value is
  the digest of the empty string under the secret.
\<close>

theorem signature_only_query:
  assumes "s \<noteq> []" and "length (hmac s []) = 32"
  shows "sorted_param_string (rest_without ''signature'' [(''signature'', v)]) = Inr []
       \<and> verifyProxySignature hmac (Some s) [(''signature'', v)]
           = Inr (v = Str (digest_hex (hmac s [])))
       \<and> verifyShopifySignature hmac (Some s) [(''signature'', v)]
           = Inr (v = Str (digest_hex (hmac s [])))"
proof -
  have m: "sorted_param_string (rest_without ''signature'' [(''signature'', v)]) = Inr []"
    by (simp add: sorted_param_string_def rest_without_def js_sort_def object_keys_def
                  join_empty_def)
  have ne: "digest_hex (hmac s []) \<noteq> []" using assms(2) by (rule digest_hex_nonempty)
  have "verifyProxySignature hmac (Some s) [(''signature'', v)]
          = Inr (v = Str (digest_hex (hmac s [])))"
  proof (cases "falsy (get_prop [(''signature'', v)] ''signature'')")
    case True
    then have "v = Str []" by (cases v) (simp_all add: get_prop_def)
    with True ne show ?thesis by (auto simp: verify_no_signature)
  next
    case False
    from verify_message [OF False assms(1) m, of hmac]
    show ?thesis by (simp add: get_prop_def)
  qed
  with m show ?thesis by (simp add: verify_variants_agree)
qed

theorem signature_only_query_witness:
  "''shh'' \<noteq> [] \<and> length (sample_mac ''shh'' []) = 32
   \<and> verifyProxySignature sample_mac (Some ''shh'')
        [(''signature'', Str ''434445464748494a4b4c4d4e4f505152535455565758595a5b5c5d5e5f606162'')]
       = Inr True
   \<and> verifyShopifySignature sample_mac (Some ''shh'') [(''signature'', Str ''00'')] = Inr False"
proof -
  have s: "''shh'' \<noteq> []" by simp
  have l: "length (sample_mac ''shh'' []) = 32" by (rule length_sample_mac)
  have g: "digest_hex (sample_mac ''shh'' [])
           = ''434445464748494a4b4c4d4e4f505152535455565758595a5b5c5d5e5f606162''"
    by code_simp
  show ?thesis
    using signature_only_query [where hmac = sample_mac, OF s l,
            of "Str ''434445464748494a4b4c4d4e4f505152535455565758595a5b5c5d5e5f606162''"]
          signature_only_query [where hmac = sample_mac, OF s l, of "Str ''00''"] l
    by (simp add: g)
qed

section \<open>The claims about the route\<close>

text \<open>
  C5. The market identifier the handlers look up is the path parameter in lowercase with the
  first \<^verbatim>\<open>.xml\<close> removed, wherever it stands, not only a trailing one: for
  \<^verbatim>\<open>austria.xml.bak\<close> the code looks up \<^verbatim>\<open>austria.bak\<close>, where lowercasing and
  stripping a trailing \<^verbatim>\<open>.xml\<close> keeps \<^verbatim>\<open>austria.xml.bak\<close>. The two agree on every
  parameter whose market name has no dot (\<open>market_of_dotless\<close>).
\<close>

theorem inner_xml_removed:
  "market_of ''austria.xml.bak'' = ''austria.bak''
   \<and> spec_market ''austria.xml.bak'' = ''austria.xml.bak''"
  by code_simp

lemma replace_first_dotless:
  "CHR ''.'' \<notin> set m \<Longrightarrow> replace_first ''.xml'' [] (m @ ''.xml'') = m"
  "CHR ''.'' \<notin> set m \<Longrightarrow> replace_first ''.xml'' [] m = m"
  by (induction m) auto

lemma not_endsWith_dotless: "CHR ''.'' \<notin> set m \<Longrightarrow> \<not> endsWith m ''.xml''"
proof
  assume d: "CHR ''.'' \<notin> set m" and e: "endsWith m ''.xml''"
  from e have "drop (length m - length ''.xml'') m = ''.xml''" by (simp only: endsWith_def)
  then have "CHR ''.'' \<in> set (drop (length m - length ''.xml'') m)" by simp
  then have "CHR ''.'' \<in> set m" by (rule in_set_dropD)
  with d show False by simp
qed

lemma market_of_dotless:
  assumes "CHR ''.'' \<notin> set m"
    and "toLowerCase market_param = m \<or> toLowerCase market_param = m @ ''.xml''"
  shows "market_of market_param = m \<and> spec_market market_param = m"
proof -
  from assms(2) show ?thesis
  proof
    assume "toLowerCase market_param = m"
    then show ?thesis
      using assms(1)
      by (simp add: market_of_def spec_market_def replace_first_dotless not_endsWith_dotless)
  next
    assume "toLowerCase market_param = m @ ''.xml''"
    then show ?thesis
      using assms(1)
      by (simp add: market_of_def spec_market_def replace_first_dotless endsWith_def)
  qed
qed

lemma sample_env:
  "process_env sample_runtime ''SKIP_VERIFICATION'' = None"
  "process_env sample_runtime ''NODE_ENV'' = None"
  "process_env sample_runtime ''SHOPIFY_APP_SECRET'' = Some ''shh''"
  "crypto_hmac sample_runtime = sample_mac"
  by (simp_all add: sample_runtime_def)

lemma rejected_request_no_lookup:
  "process_env rt ''SKIP_VERIFICATION'' \<noteq> Some ''true'' \<Longrightarrow>
   verifyProxySignature (crypto_hmac rt) (process_env rt ''SHOPIFY_APP_SECRET'') query = Inr False
   \<Longrightarrow> proxy_sitemaps_handler rt market_param query =
        (Responded \<lparr>status = 403, content_type = Some ''text/html'', cache_control = None,
                     body = ''Forbidden''\<rparr>, [])"
  "process_env rt ''NODE_ENV'' \<noteq> Some ''development'' \<Longrightarrow>
   verifyShopifySignature (crypto_hmac rt) (process_env rt ''SHOPIFY_APP_SECRET'') query = Inr False
   \<Longrightarrow> proxy_sitemaps_handler_dev rt market_param query =
        (Responded \<lparr>status = 403, content_type = Some ''text/plain'', cache_control = None,
                     body = ''Forbidden''\<rparr>, [])"
  by (simp_all add: proxy_sitemaps_handler_def proxy_sitemaps_handler_dev_def new_response_def
                    res_status_def res_type_def res_send_def)

text \<open>
  C6. On a request without a signature, with verification not bypassed, both handlers answer
  403 with the text \<^verbatim>\<open>Forbidden\<close> and make no call to the file system
  (\<open>rejected_request_no_lookup\<close> has it for every rejected request). The later revision
  sends the body as \<^verbatim>\<open>text/plain\<close>. The handler of \<^verbatim>\<open>server.js\<close> sets no type before
  \<^verbatim>\<open>res.send\<close>, and the body goes out as \<^verbatim>\<open>text/html\<close>, not as plain text.
\<close>

theorem forbidden_sent_as_html:
  "proxy_sitemaps_handler sample_runtime ''austria'' [(''shop'', Str ''x'')] =
     (Responded \<lparr>status = 403, content_type = Some ''text/html'', cache_control = None,
                  body = ''Forbidden''\<rparr>, [])
   \<and> proxy_sitemaps_handler_dev sample_runtime ''austria'' [(''shop'', Str ''x'')] =
     (Responded \<lparr>status = 403, content_type = Some ''text/plain'', cache_control = None,
                  body = ''Forbidden''\<rparr>, [])"
proof -
  have n: "verifyProxySignature sample_mac (Some ''shh'') [(''shop'', Str ''x'')] = Inr False"
    by (simp add: verify_no_signature get_prop_def)
  show ?thesis
    using n by (simp add: rejected_request_no_lookup sample_env verify_variants_agree)
qed



end
